theory Spec2Isabelle
  imports Main "HOL-Library.Sublist" "HOL-Library.Multiset"
begin

section \<open>Severity levels (YALF.h, enum class LogLevel)\<close>

text \<open>
  The enumeration is declared from the most severe level to the least severe one. C++
  compares values of an \<^verbatim>\<open>enum class\<close> by their underlying integers, which are the
  declaration ranks 0 .. 6.
\<close>

datatype LogLevel = Fatal | Critical | Error | Warning | Info | Debug | Noise

fun level_rank :: "LogLevel \<Rightarrow> nat" where
  "level_rank Fatal = 0"
| "level_rank Critical = 1"
| "level_rank Error = 2"
| "level_rank Warning = 3"
| "level_rank Info = 4"
| "level_rank Debug = 5"
| "level_rank Noise = 6"

instantiation LogLevel :: linorder
begin

definition less_eq_LogLevel :: "LogLevel \<Rightarrow> LogLevel \<Rightarrow> bool" where
  "less_eq_LogLevel a b = (level_rank a \<le> level_rank b)"

definition less_LogLevel :: "LogLevel \<Rightarrow> LogLevel \<Rightarrow> bool" where
  "less_LogLevel a b = (level_rank a < level_rank b)"

instance
proof
  fix x y z :: LogLevel
  show "(x < y) = (x \<le> y \<and> \<not> y \<le> x)"
    by (auto simp: less_eq_LogLevel_def less_LogLevel_def)
  show "x \<le> x"
    by (simp add: less_eq_LogLevel_def)
  show "x \<le> y \<Longrightarrow> y \<le> z \<Longrightarrow> x \<le> z"
    by (simp add: less_eq_LogLevel_def)
  show "x \<le> y \<Longrightarrow> y \<le> x \<Longrightarrow> x = y"
    by (cases x; cases y; simp add: less_eq_LogLevel_def)
  show "x \<le> y \<or> y \<le> x"
    by (auto simp: less_eq_LogLevel_def)
qed

end

text \<open>\<^verbatim>\<open>parseLogLevelString\<close>: a chain of string comparisons, \<^verbatim>\<open>std::nullopt\<close> at the end.\<close>

definition parseLogLevelString :: "string \<Rightarrow> LogLevel option" where
  "parseLogLevelString str =
     (if str = ''Fatal'' then Some Fatal
      else if str = ''Critical'' then Some Critical
      else if str = ''Error'' then Some Error
      else if str = ''Warning'' then Some Warning
      else if str = ''Info'' then Some Info
      else if str = ''Debug'' then Some Debug
      else if str = ''Noise'' then Some Noise
      else None)"

text \<open>
  \<^verbatim>\<open>getLogLevelString\<close>: a switch over the seven enumerators. The trailing
  \<^verbatim>\<open>return "<invalid>"\<close> of the source is reached only by a value that is not an
  enumerator, which the datatype does not contain.
\<close>

fun getLogLevelString :: "LogLevel \<Rightarrow> string" where
  "getLogLevelString Fatal = ''Fatal''"
| "getLogLevelString Critical = ''Critical''"
| "getLogLevelString Error = ''Error''"
| "getLogLevelString Warning = ''Warning''"
| "getLogLevelString Info = ''Info''"
| "getLogLevelString Debug = ''Debug''"
| "getLogLevelString Noise = ''Noise''"

definition level_names :: "string list" where
  "level_names = [''Fatal'', ''Critical'', ''Error'', ''Warning'', ''Info'', ''Debug'', ''Noise'']"

section \<open>Entry metadata (YALF.h, struct EntryMetadata)\<close>

text \<open>
  \<^verbatim>\<open>std::source_location\<close> is kept as its four observable fields; line and column
  are unsigned integers. The timestamp is the tick count of the time point.
\<close>

record source_location =
  file_name :: string
  function_name :: string
  line :: nat
  column :: nat

record EntryMetadata =
  level :: LogLevel
  domain :: string
  instance_name :: "string option"
  src_location :: source_location
  timestamp :: int

section \<open>Filter (YALF.h, class Filter)\<close>

text \<open>
  The \<^verbatim>\<open>std::unordered_map\<close> of domain overrides is an association list with one entry
  per key, in the (unspecified) iteration order of the container.
\<close>

record Filter =
  default_level :: LogLevel
  domains :: "(string \<times> LogLevel) list"

text \<open>The defaulted constructor: member initialisers \<^verbatim>\<open>LogLevel::Info\<close> and an empty map.\<close>

definition new_Filter :: Filter where
  "new_Filter = \<lparr> default_level = Info, domains = [] \<rparr>"

text \<open>
  \<^verbatim>\<open>checkFilter\<close>: \<^verbatim>\<open>std::ranges::find_if\<close> walks the container, projecting each
  element to its key and comparing it with the entry's domain; the first element found
  decides, the default level otherwise.
\<close>

definition checkFilter :: "'z Filter_scheme \<Rightarrow> EntryMetadata \<Rightarrow> bool" where
  "checkFilter f entry =
     (case find (\<lambda>kv. fst kv = domain entry) (domains f) of
        Some it \<Rightarrow> level entry \<le> snd it
      | None \<Rightarrow> level entry \<le> default_level f)"

definition setDefaultLogLevel :: "LogLevel \<Rightarrow> 'z Filter_scheme \<Rightarrow> 'z Filter_scheme" where
  "setDefaultLogLevel lv f = f\<lparr> default_level := lv \<rparr>"

text \<open>\<^verbatim>\<open>domains[key] = level\<close>: assign in place when the key exists, insert otherwise.\<close>

fun assign_key :: "'k \<Rightarrow> 'v \<Rightarrow> ('k \<times> 'v) list \<Rightarrow> ('k \<times> 'v) list" where
  "assign_key k v [] = [(k, v)]"
| "assign_key k v (kv # rest) =
     (if fst kv = k then (k, v) # rest else kv # assign_key k v rest)"

definition setDomainLogLevel :: "string \<Rightarrow> LogLevel \<Rightarrow> 'z Filter_scheme \<Rightarrow> 'z Filter_scheme" where
  "setDomainLogLevel d lv f = f\<lparr> domains := assign_key d lv (domains f) \<rparr>"

definition clearDomainLogLevel :: "string \<Rightarrow> 'z Filter_scheme \<Rightarrow> 'z Filter_scheme" where
  "clearDomainLogLevel d f = f\<lparr> domains := filter (\<lambda>kv. fst kv \<noteq> d) (domains f) \<rparr>"

section \<open>Formatted text sinks (YALF.h, class FormattedStringSink)\<close>

text \<open>
  What the build fixes and the standard library supplies is a parameter of the renderer:
  \<open>msvc\<close> says whether \<^verbatim>\<open>_MSC_VER\<close> is defined, and \<open>chrono_format c t\<close> is the text
  that \<^verbatim>\<open>std::format\<close> produces for the conversion \<^verbatim>\<open>{:%c}\<close> of the timestamp \<open>t\<close>
  (after the conversion to local time when \<^verbatim>\<open>YALF_USE_LOCALTIME\<close> is defined).
\<close>

record platform =
  msvc :: bool
  chrono_format :: "char \<Rightarrow> int \<Rightarrow> string"

record FormattedStringSink = Filter +
  default_fmt :: string
  fmts :: "(LogLevel \<times> string) list"

definition new_FormattedStringSink :: FormattedStringSink where
  "new_FormattedStringSink =
     \<lparr> default_level = Info, domains = [],
       default_fmt = ''%H:%M:%S %F:%l %D[%I] %L:  %x%R%n'', fmts = [] \<rparr>"

definition setFormat :: "string \<Rightarrow> FormattedStringSink \<Rightarrow> FormattedStringSink" where
  "setFormat fmt sink = sink\<lparr> default_fmt := fmt \<rparr>"

definition setLevelFormat :: "LogLevel \<Rightarrow> string \<Rightarrow> FormattedStringSink \<Rightarrow> FormattedStringSink" where
  "setLevelFormat lv fmt sink = sink\<lparr> fmts := assign_key lv fmt (fmts sink) \<rparr>"

definition clearFormat :: "LogLevel \<Rightarrow> FormattedStringSink \<Rightarrow> FormattedStringSink" where
  "clearFormat lv sink = sink\<lparr> fmts := filter (\<lambda>kv. fst kv \<noteq> lv) (fmts sink) \<rparr>"

definition getFormatString :: "FormattedStringSink \<Rightarrow> LogLevel \<Rightarrow> string" where
  "getFormatString sink lv =
     (case find (\<lambda>kv. fst kv = lv) (fmts sink) of
        Some it \<Rightarrow> snd it
      | None \<Rightarrow> default_fmt sink)"

text \<open>
  \<^verbatim>\<open>std::string_view::find_last_of\<close> and \<^verbatim>\<open>find\<close>: the position found, or \<open>None\<close>
  for \<^verbatim>\<open>npos\<close>.
\<close>

fun find_first :: "char \<Rightarrow> string \<Rightarrow> nat option" where
  "find_first c [] = None"
| "find_first c (x # xs) = (if x = c then Some 0 else map_option Suc (find_first c xs))"

definition find_from :: "string \<Rightarrow> char \<Rightarrow> nat \<Rightarrow> nat option" where
  "find_from str c pos =
     (if pos > length str then None
      else map_option (\<lambda>i. pos + i) (find_first c (drop pos str)))"

fun find_last_of_aux :: "char \<Rightarrow> string \<Rightarrow> nat \<Rightarrow> nat option \<Rightarrow> nat option" where
  "find_last_of_aux c [] i found = found"
| "find_last_of_aux c (x # xs) i found =
     find_last_of_aux c xs (i + 1) (if x = c then Some i else found)"

definition find_last_of :: "string \<Rightarrow> char \<Rightarrow> nat option" where
  "find_last_of str c = find_last_of_aux c str 0 None"

text \<open>
  \<^verbatim>\<open>truncateFilename\<close>: \<^verbatim>\<open>remove_prefix(find_last_of(sep) + 1)\<close>. When there is no
  separator, \<^verbatim>\<open>npos + 1\<close> wraps to 0 and nothing is removed.
\<close>

definition truncateFilename :: "platform \<Rightarrow> string \<Rightarrow> string" where
  "truncateFilename pf filename =
     (case find_last_of filename (if msvc pf then CHR 0x5C else CHR ''/'') of
        None \<Rightarrow> filename
      | Some i \<Rightarrow> drop (i + 1) filename)"

text \<open>\<^verbatim>\<open>std::to_string\<close> of an unsigned integer: its decimal digits.\<close>

fun to_string :: "nat \<Rightarrow> string" where
  "to_string n =
     (if n < 10 then [''0123456789'' ! n]
      else to_string (n div 10) @ [''0123456789'' ! (n mod 10)])"

text \<open>\<^verbatim>\<open>std::format("{: >8}", str)\<close>: padded with spaces on the left to width 8.\<close>

definition right_justify8 :: "string \<Rightarrow> string" where
  "right_justify8 str = replicate (8 - length str) CHR '' '' @ str"

text \<open>The inner switches of the colour directives; \<^verbatim>\<open>default: break\<close> appends nothing.\<close>

definition fg_color :: "char \<Rightarrow> string" where
  "fg_color cc =
     (if cc = CHR ''x'' then CHR 0x1B # ''[30m''
      else if cc = CHR ''r'' then CHR 0x1B # ''[31m''
      else if cc = CHR ''g'' then CHR 0x1B # ''[32m''
      else if cc = CHR ''y'' then CHR 0x1B # ''[33m''
      else if cc = CHR ''b'' then CHR 0x1B # ''[34m''
      else if cc = CHR ''m'' then CHR 0x1B # ''[35m''
      else if cc = CHR ''c'' then CHR 0x1B # ''[36m''
      else if cc = CHR ''w'' then CHR 0x1B # ''[37m''
      else if cc = CHR ''X'' then CHR 0x1B # ''[90m''
      else if cc = CHR ''R'' then CHR 0x1B # ''[91m''
      else if cc = CHR ''G'' then CHR 0x1B # ''[92m''
      else if cc = CHR ''Y'' then CHR 0x1B # ''[93m''
      else if cc = CHR ''B'' then CHR 0x1B # ''[94m''
      else if cc = CHR ''M'' then CHR 0x1B # ''[95m''
      else if cc = CHR ''C'' then CHR 0x1B # ''[96m''
      else if cc = CHR ''W'' then CHR 0x1B # ''[97m''
      else [])"

definition bg_color :: "char \<Rightarrow> string" where
  "bg_color cc =
     (if cc = CHR ''x'' then CHR 0x1B # ''[40m''
      else if cc = CHR ''r'' then CHR 0x1B # ''[41m''
      else if cc = CHR ''g'' then CHR 0x1B # ''[42m''
      else if cc = CHR ''y'' then CHR 0x1B # ''[43m''
      else if cc = CHR ''b'' then CHR 0x1B # ''[44m''
      else if cc = CHR ''m'' then CHR 0x1B # ''[45m''
      else if cc = CHR ''c'' then CHR 0x1B # ''[46m''
      else if cc = CHR ''w'' then CHR 0x1B # ''[47m''
      else if cc = CHR ''X'' then CHR 0x1B # ''[100m''
      else if cc = CHR ''R'' then CHR 0x1B # ''[101m''
      else if cc = CHR ''G'' then CHR 0x1B # ''[102m''
      else if cc = CHR ''Y'' then CHR 0x1B # ''[103m''
      else if cc = CHR ''B'' then CHR 0x1B # ''[104m''
      else if cc = CHR ''M'' then CHR 0x1B # ''[105m''
      else if cc = CHR ''C'' then CHR 0x1B # ''[106m''
      else if cc = CHR ''W'' then CHR 0x1B # ''[107m''
      else [])"

text \<open>
  The outer \<^verbatim>\<open>switch (fc)\<close> of \<^verbatim>\<open>formatEntry\<close>, entered at position \<open>s\<close> of the
  template with \<open>fc\<close> the character after the \<open>%\<close>: the text appended to the output,
  and the extra step (the \<^verbatim>\<open>s++\<close> of a colour directive that has its sub-code) taken
  before the common \<^verbatim>\<open>s += 2\<close>.
\<close>

definition time_directives :: "char list" where
  "time_directives = ''yYbBmdeaAHMS''"

definition directive ::
  "platform \<Rightarrow> EntryMetadata \<Rightarrow> string \<Rightarrow> string \<Rightarrow> nat \<Rightarrow> char \<Rightarrow> string \<times> nat" where
  "directive pf meta msg fmt s fc =
     (if fc = CHR ''%'' then (''%'', 0)
      else if fc = CHR ''n'' then
        ((if msvc pf then [CHR 0x0D] else []) @ [CHR 0x0A], 0)
      else if fc \<in> set time_directives then (chrono_format pf fc (timestamp meta), 0)
      else if fc = CHR ''F'' then (truncateFilename pf (file_name (src_location meta)), 0)
      else if fc = CHR ''f'' then (function_name (src_location meta), 0)
      else if fc = CHR ''l'' then (to_string (line (src_location meta)), 0)
      else if fc = CHR ''c'' then (to_string (column (src_location meta)), 0)
      else if fc = CHR ''D'' then (domain meta, 0)
      else if fc = CHR ''I'' then (case instance_name meta of Some i \<Rightarrow> i | None \<Rightarrow> [], 0)
      else if fc = CHR ''L'' then (right_justify8 (getLogLevelString (level meta)), 0)
      else if fc = CHR ''x'' then (msg, 0)
      else if fc = CHR ''R'' then (CHR 0x1B # ''[0m'', 0)
      else if fc = CHR ''C'' then
        (if s < length fmt - 2 then (fg_color (fmt ! (s + 2)), 1) else ([], 0))
      else if fc = CHR ''Q'' then
        (if s < length fmt - 2 then (bg_color (fmt ! (s + 2)), 1) else ([], 0))
      else ([], 0))"

text \<open>The characters that have a case in the outer switch.\<close>

definition directive_chars :: "char list" where
  "directive_chars = ''%n'' @ time_directives @ ''FflcDILxRCQ''"

text \<open>
  The scanning loop of \<^verbatim>\<open>formatEntry\<close>, on the position \<open>s\<close> and the output so far.
  The loop has three cases: a run of literal characters, a \<open>%\<close> that is followed by a
  character, and a \<open>%\<close> that is the last character. In the last case the source executes
  neither branch of \<^verbatim>\<open>if ... else if ...\<close>, so the next iteration starts from the same
  position. A loop that does not end has the value \<open>None\<close>.
\<close>

partial_function (option) formatEntry_loop ::
  "platform \<Rightarrow> EntryMetadata \<Rightarrow> string \<Rightarrow> string \<Rightarrow> nat \<Rightarrow> string \<Rightarrow> string option" where
  "formatEntry_loop pf meta msg fmt s out =
     (if s < length fmt then
        (if fmt ! s \<noteq> CHR ''%'' then
           (case find_from fmt CHR ''%'' s of
              None \<Rightarrow> formatEntry_loop pf meta msg fmt (length fmt) (out @ drop s fmt)
            | Some p \<Rightarrow>
                formatEntry_loop pf meta msg fmt (s + (p - s)) (out @ take (p - s) (drop s fmt)))
         else if s < length fmt - 1 then
           formatEntry_loop pf meta msg fmt
             (s + snd (directive pf meta msg fmt s (fmt ! (s + 1))) + 2)
             (out @ fst (directive pf meta msg fmt s (fmt ! (s + 1))))
         else formatEntry_loop pf meta msg fmt s out)
      else Some out)"

declare formatEntry_loop.simps [code]

definition formatEntry :: "platform \<Rightarrow> FormattedStringSink \<Rightarrow> EntryMetadata \<Rightarrow> string \<Rightarrow> string option" where
  "formatEntry pf sink meta msg =
     formatEntry_loop pf meta msg (getFormatString sink (level meta)) 0 []"

section \<open>Logger (YALF.h, class Logger)\<close>

text \<open>
  Exceptions are values. \<^verbatim>\<open>getSink\<close> throws \<^verbatim>\<open>std::runtime_error\<close> with a
  message; a sink's \<^verbatim>\<open>log\<close> may throw whatever its stream throws (the file sinks
  enable stream exceptions).
\<close>

datatype error = runtime_error string | io_failure

text \<open>
  The registry \<^verbatim>\<open>std::unordered_map<std::string, std::unique_ptr<Sink>>\<close> is an
  association list with one entry per name, in the container's iteration order. The type
  \<open>'s\<close> stands for the sink objects.
\<close>

record 's Logger =
  sinks :: "(string \<times> 's) list"

definition new_Logger :: "'s Logger" where
  "new_Logger = \<lparr> sinks = [] \<rparr>"

text \<open>
  \<^verbatim>\<open>addSink\<close> calls \<^verbatim>\<open>emplace\<close>, which inserts only when the container holds no element
  with that key; otherwise the container is left as it is and the sink passed in is
  destroyed.

  Where an inserted element comes in the iteration order, and whether the insertion
  rehashes and so reorders the other elements, is left to the container. That choice is
  the parameter \<open>arrange\<close>, applied to the elements with the new one: any function that
  returns a rearrangement of its argument (a function that returns something else is not
  followed, and the new element then comes first).
\<close>

definition emplace ::
  "(('k \<times> 'v) list \<Rightarrow> ('k \<times> 'v) list) \<Rightarrow> 'k \<Rightarrow> 'v \<Rightarrow> ('k \<times> 'v) list \<Rightarrow> ('k \<times> 'v) list" where
  "emplace arrange k v xs =
     (if k \<in> fst ` set xs then xs
      else if mset (arrange ((k, v) # xs)) = mset ((k, v) # xs) then arrange ((k, v) # xs)
      else (k, v) # xs)"

definition addSink ::
  "((string \<times> 's) list \<Rightarrow> (string \<times> 's) list) \<Rightarrow> string \<Rightarrow> 's \<Rightarrow> 's Logger \<Rightarrow> 's Logger" where
  "addSink arrange name sink lg = lg\<lparr> sinks := emplace arrange name sink (sinks lg) \<rparr>"

definition getSink :: "'s Logger \<Rightarrow> string \<Rightarrow> error + 's" where
  "getSink lg name =
     (case find (\<lambda>kv. fst kv = name) (sinks lg) of
        Some it \<Rightarrow> Inr (snd it)
      | None \<Rightarrow> Inl (runtime_error (''Failed to find sink '' @ name)))"

definition removeSink :: "string \<Rightarrow> 's Logger \<Rightarrow> 's Logger" where
  "removeSink name lg = lg\<lparr> sinks := filter (\<lambda>kv. fst kv \<noteq> name) (sinks lg) \<rparr>"

text \<open>
  \<^verbatim>\<open>dolog\<close> is observed through the calls it makes: one event for each call of
  \<^verbatim>\<open>std::vformat\<close> and one for each call of a sink's \<^verbatim>\<open>log\<close> (with the sink's name,
  the sink as it was when called, the metadata and the message).
\<close>

datatype ('s, 'a) call =
    Call_vformat string 'a
  | Call_log string 's EntryMetadata string

fun is_vformat :: "('s, 'a) call \<Rightarrow> bool" where
  "is_vformat (Call_vformat _ _) = True"
| "is_vformat (Call_log _ _ _ _) = False"

text \<open>
  The virtual member functions of \<^verbatim>\<open>Sink\<close> are parameters: \<open>chk\<close> is
  \<^verbatim>\<open>checkFilter\<close>, and \<open>lg\<close> is \<^verbatim>\<open>log\<close>, which returns the sink after the call and
  the exception it threw, if any.

  The first loop of \<^verbatim>\<open>dolog\<close> returns true at the first sink that accepts.
\<close>

fun any_accepts :: "('s \<Rightarrow> EntryMetadata \<Rightarrow> bool) \<Rightarrow> EntryMetadata \<Rightarrow> (string \<times> 's) list \<Rightarrow> bool" where
  "any_accepts chk meta [] = False"
| "any_accepts chk meta (kv # rest) =
     (if chk (snd kv) meta then True else any_accepts chk meta rest)"

text \<open>
  The second loop calls \<^verbatim>\<open>log\<close> on each sink that accepts. An exception leaves the
  loop: the sinks after the throwing one are not visited.
\<close>

fun deliver ::
  "('s \<Rightarrow> EntryMetadata \<Rightarrow> bool) \<Rightarrow> ('s \<Rightarrow> EntryMetadata \<Rightarrow> string \<Rightarrow> 's \<times> error option)
   \<Rightarrow> EntryMetadata \<Rightarrow> string \<Rightarrow> (string \<times> 's) list
   \<Rightarrow> ('s, 'a) call list \<times> (string \<times> 's) list \<times> error option" where
  "deliver chk lg meta msg [] = ([], [], None)"
| "deliver chk lg meta msg (kv # rest) =
     (if chk (snd kv) meta then
        (case lg (snd kv) meta msg of
           (s', Some e) \<Rightarrow> ([Call_log (fst kv) (snd kv) meta msg], (fst kv, s') # rest, Some e)
         | (s', None) \<Rightarrow>
             (case deliver chk lg meta msg rest of
                (cs, rest', r) \<Rightarrow>
                  (Call_log (fst kv) (snd kv) meta msg # cs, (fst kv, s') # rest', r)))
      else
        (case deliver chk lg meta msg rest of
           (cs, rest', r) \<Rightarrow> (cs, kv # rest', r)))"

record ('s, 'a) dolog_result =
  calls :: "('s, 'a) call list"
  logger_after :: "'s Logger"
  thrown :: "error option"

text \<open>
  \<^verbatim>\<open>dolog\<close>. The timestamp read from the clock is the argument \<open>now\<close>; \<open>vformat\<close>
  is \<^verbatim>\<open>std::vformat\<close>.
\<close>

definition dolog ::
  "('s \<Rightarrow> EntryMetadata \<Rightarrow> bool) \<Rightarrow> ('s \<Rightarrow> EntryMetadata \<Rightarrow> string \<Rightarrow> 's \<times> error option)
   \<Rightarrow> (string \<Rightarrow> 'a \<Rightarrow> string) \<Rightarrow> int
   \<Rightarrow> 's Logger \<Rightarrow> LogLevel \<Rightarrow> string \<Rightarrow> string option \<Rightarrow> source_location
   \<Rightarrow> string \<Rightarrow> 'a \<Rightarrow> ('s, 'a) dolog_result" where
  "dolog chk lg vformat now logger lv dmn inst loc fmt args =
     (let meta = \<lparr> level = lv, domain = dmn, instance_name = inst,
                   src_location = loc, timestamp = now \<rparr>;
          passed = any_accepts chk meta (sinks logger)
      in if passed then
           (let msg = vformat fmt args
            in case deliver chk lg meta msg (sinks logger) of
                 (cs, sinks', r) \<Rightarrow>
                   \<lparr> calls = Call_vformat fmt args # cs,
                     logger_after = logger\<lparr> sinks := sinks' \<rparr>,
                     thrown = r \<rparr>)
         else \<lparr> calls = [], logger_after = logger, thrown = None \<rparr>)"

text \<open>The sinks whose filter accepts the metadata, in iteration order.\<close>

definition accepting :: "('s \<Rightarrow> EntryMetadata \<Rightarrow> bool) \<Rightarrow> EntryMetadata \<Rightarrow> 's Logger \<Rightarrow> (string \<times> 's) list" where
  "accepting chk meta logger = filter (\<lambda>kv. chk (snd kv) meta) (sinks logger)"


definition log_calls :: "('s, 'a) call list \<Rightarrow> ('s, 'a) call list" where
  "log_calls cs = filter (\<lambda>c. \<not> is_vformat c) cs"

section \<open>Deferred sink (class DeferredSink)\<close>

text \<open>
  The queued copy of an entry, and the two conversions: the one made by
  \<^verbatim>\<open>DeferredSink::log\<close> and the one made by the worker before it calls the wrapped
  sink.
\<close>

record DeferredLogEntry =
  dle_level :: LogLevel
  dle_domain :: string
  dle_instance :: "string option"
  dle_source_location :: source_location
  dle_timestamp :: int
  dle_message :: string

definition make_dle :: "EntryMetadata \<Rightarrow> string \<Rightarrow> DeferredLogEntry" where
  "make_dle meta msg =
     \<lparr> dle_level = level meta, dle_domain = domain meta,
       dle_instance = (case instance_name meta of Some i \<Rightarrow> Some i | None \<Rightarrow> None),
       dle_source_location = src_location meta, dle_timestamp = timestamp meta,
       dle_message = msg \<rparr>"

definition dle_call :: "DeferredLogEntry \<Rightarrow> EntryMetadata \<times> string" where
  "dle_call entry =
     (\<lparr> level = dle_level entry, domain = dle_domain entry,
        instance_name = (case dle_instance entry of Some i \<Rightarrow> Some i | None \<Rightarrow> None),
        src_location = dle_source_location entry, timestamp = dle_timestamp entry \<rparr>,
      dle_message entry)"

text \<open>
  Two threads run on a deferred sink: the worker, in \<^verbatim>\<open>doBackgroundWork\<close>, and the
  owner, which makes its \<^verbatim>\<open>log\<close> calls and then destroys the sink. Each thread has a
  program point; a step of a thread is one access to the shared state (the atomic flag,
  the queue under its mutex, the condition variable).

  Program points of the worker:
  \<^item> \<open>W_outer\<close>: before the test of \<^verbatim>\<open>while (!stop_requested)\<close>;
  \<^item> \<open>W_lock\<close>: before the construction of the \<^verbatim>\<open>unique_lock\<close>;
  \<^item> \<open>W_wait\<close>: the mutex held, before the test of the predicate of \<^verbatim>\<open>cv.wait\<close>;
  \<^item> \<open>W_blocked\<close>: inside \<^verbatim>\<open>cv.wait\<close>, the mutex released, waiting to be notified;
  \<^item> \<open>W_woken\<close>: notified, before the mutex is taken again;
  \<^item> \<open>W_inner\<close>: the mutex held, before the test of \<^verbatim>\<open>while (!queue.empty())\<close>;
  \<^item> \<open>W_deliver\<close>: the mutex released, before the call of the wrapped sink's \<^verbatim>\<open>log\<close>
    on the front entry;
  \<^item> \<open>W_relock\<close>: before \<^verbatim>\<open>lg.lock(); queue.pop();\<close>;
  \<^item> \<open>W_exit\<close>: the thread function has returned.
\<close>

datatype worker_pc =
  W_outer | W_lock | W_wait | W_blocked | W_woken | W_inner | W_deliver | W_relock | W_exit

text \<open>
  Program points of the owner:
  \<^item> \<open>O_log\<close>: before the next \<^verbatim>\<open>log\<close> call (lock, push, unlock), or, when no call is
    left, before the destructor;
  \<^item> \<open>O_log_notify\<close>: before the \<^verbatim>\<open>cv.notify_one()\<close> that ends \<^verbatim>\<open>log\<close>;
  \<^item> \<open>O_stop\<close>: in the destructor, before \<^verbatim>\<open>stop_requested = true\<close>;
  \<^item> \<open>O_stop_notify\<close>: before the destructor's \<^verbatim>\<open>cv.notify_one()\<close>;
  \<^item> \<open>O_join\<close>: in \<^verbatim>\<open>worker.join()\<close>;
  \<^item> \<open>O_done\<close>: the destructor has returned.
\<close>

datatype owner_pc = O_log | O_log_notify | O_stop | O_stop_notify | O_join | O_done

record DeferredSink =
  underlying_calls :: "(EntryMetadata \<times> string) list"
  stop_requested :: bool
  mtx_locked :: bool
  queue :: "DeferredLogEntry list"
  worker :: worker_pc
  owner :: owner_pc
  pending :: "(EntryMetadata \<times> string) list"

text \<open>
  The state after the constructor, with the \<^verbatim>\<open>log\<close> calls that the owner is going to
  make: the worker thread exists and has not run yet.
\<close>

definition new_DeferredSink :: "(EntryMetadata \<times> string) list \<Rightarrow> DeferredSink" where
  "new_DeferredSink todo =
     \<lparr> underlying_calls = [], stop_requested = False, mtx_locked = False, queue = [],
       worker = W_outer, owner = O_log, pending = todo \<rparr>"

text \<open>\<^verbatim>\<open>cv.notify_one()\<close>: wakes the worker when it is waiting, and is lost otherwise.\<close>

definition notify_one :: "DeferredSink \<Rightarrow> DeferredSink" where
  "notify_one d = (if worker d = W_blocked then d\<lparr> worker := W_woken \<rparr> else d)"

text \<open>A step of a thread; \<open>None\<close> when the thread cannot move (it is blocked or has ended).\<close>

definition worker_step :: "DeferredSink \<Rightarrow> DeferredSink option" where
  "worker_step d =
     (case worker d of
        W_outer \<Rightarrow>
          Some (if stop_requested d then d\<lparr> worker := W_exit \<rparr> else d\<lparr> worker := W_lock \<rparr>)
      | W_lock \<Rightarrow>
          (if mtx_locked d then None else Some (d\<lparr> mtx_locked := True, worker := W_wait \<rparr>))
      | W_wait \<Rightarrow>
          Some (if stop_requested d \<or> queue d \<noteq> [] then d\<lparr> worker := W_inner \<rparr>
                else d\<lparr> mtx_locked := False, worker := W_blocked \<rparr>)
      | W_blocked \<Rightarrow> None
      | W_woken \<Rightarrow>
          (if mtx_locked d then None else Some (d\<lparr> mtx_locked := True, worker := W_wait \<rparr>))
      | W_inner \<Rightarrow>
          Some (if queue d \<noteq> [] then d\<lparr> mtx_locked := False, worker := W_deliver \<rparr>
                else d\<lparr> mtx_locked := False, worker := W_outer \<rparr>)
      | W_deliver \<Rightarrow>
          (case queue d of
             [] \<Rightarrow> None
           | entry # _ \<Rightarrow>
               Some (d\<lparr> underlying_calls := underlying_calls d @ [dle_call entry],
                        worker := W_relock \<rparr>))
      | W_relock \<Rightarrow>
          (if mtx_locked d then None
           else Some (d\<lparr> mtx_locked := True, queue := tl (queue d), worker := W_inner \<rparr>))
      | W_exit \<Rightarrow> None)"

definition owner_step :: "DeferredSink \<Rightarrow> DeferredSink option" where
  "owner_step d =
     (case owner d of
        O_log \<Rightarrow>
          (case pending d of
             [] \<Rightarrow> Some (d\<lparr> owner := O_stop \<rparr>)
           | call # rest \<Rightarrow>
               (if mtx_locked d then None
                else Some (d\<lparr> queue := queue d @ [make_dle (fst call) (snd call)],
                              pending := rest, owner := O_log_notify \<rparr>)))
      | O_log_notify \<Rightarrow> Some ((notify_one d)\<lparr> owner := O_log \<rparr>)
      | O_stop \<Rightarrow> Some (d\<lparr> stop_requested := True, owner := O_stop_notify \<rparr>)
      | O_stop_notify \<Rightarrow> Some ((notify_one d)\<lparr> owner := O_join \<rparr>)
      | O_join \<Rightarrow> (if worker d = W_exit then Some (d\<lparr> owner := O_done \<rparr>) else None)
      | O_done \<Rightarrow> None)"

datatype thread = Owner | Worker

fun thread_step :: "thread \<Rightarrow> DeferredSink \<Rightarrow> DeferredSink option" where
  "thread_step Owner d = owner_step d"
| "thread_step Worker d = worker_step d"

text \<open>
  An execution under a schedule, the list of the threads in the order in which they take
  their steps; \<open>None\<close> when the schedule names a thread that cannot move.
\<close>

fun run :: "thread list \<Rightarrow> DeferredSink \<Rightarrow> DeferredSink option" where
  "run [] d = Some d"
| "run (t # ts) d = (case thread_step t d of None \<Rightarrow> None | Some d' \<Rightarrow> run ts d')"

text \<open>
  The queued entries that the wrapped sink has not received yet: at \<open>W_relock\<close> the
  front entry has been delivered and is not popped yet.
\<close>

definition undelivered :: "DeferredSink \<Rightarrow> DeferredLogEntry list" where
  "undelivered d = (if worker d = W_relock then tl (queue d) else queue d)"

text \<open>
  The invariant of the executions that start with the \<^verbatim>\<open>log\<close> calls \<open>todo\<close> to make:
  the calls received by the wrapped sink, then the entries waiting in the queue, then the
  calls not made yet, are \<open>todo\<close> in its order; and the destructor returns only after
  the worker has ended.
\<close>

definition fifo_inv :: "(EntryMetadata \<times> string) list \<Rightarrow> DeferredSink \<Rightarrow> bool" where
  "fifo_inv todo d =
     (todo = underlying_calls d @ map dle_call (undelivered d) @ pending d
      \<and> (worker d = W_relock \<longrightarrow> queue d \<noteq> [])
      \<and> (owner d \<notin> {O_log, O_log_notify} \<longrightarrow> pending d = [])
      \<and> (owner d = O_done \<longrightarrow> worker d = W_exit))"

section \<open>Properties of the severity names\<close>

lemma parse_getLogLevelString: "parseLogLevelString (getLogLevelString L) = Some L"
  by (cases L) (simp_all add: parseLogLevelString_def)

lemma parse_None_iff: "(parseLogLevelString s = None) = (s \<notin> set level_names)"
  by (simp add: parseLogLevelString_def level_names_def)

text \<open>
  Claim C10. Parsing the name of any of the seven levels gives that level back, and a
  string that is not one of the seven names parses to no value.
\<close>

theorem parseLogLevelString_roundtrip:
  "parseLogLevelString (getLogLevelString L) = Some L
   \<and> (s \<notin> set level_names \<longrightarrow> parseLogLevelString s = None)"
  by (simp add: parse_getLogLevelString parse_None_iff)

theorem parseLogLevelString_roundtrip_witness:
  "parseLogLevelString (getLogLevelString Warning) = Some Warning
   \<and> ''warning'' \<notin> set level_names \<and> parseLogLevelString ''warning'' = None"
  using parseLogLevelString_roundtrip [of Warning "''warning''"]
  by (simp add: level_names_def)

section \<open>Properties of the filter\<close>

lemma find_key_map_of:
  "find (\<lambda>kv. fst kv = k) xs = (case map_of xs k of None \<Rightarrow> None | Some v \<Rightarrow> Some (k, v))"
  by (induction xs) auto

lemma checkFilter_map_of:
  "checkFilter f entry =
     (case map_of (domains f) (domain entry) of
        Some t \<Rightarrow> level entry \<le> t
      | None \<Rightarrow> level entry \<le> default_level f)"
  by (simp add: checkFilter_def find_key_map_of split: option.splits)

text \<open>
  Claim C5. When the domain mapping holds an override for the entry's domain, the entry is
  accepted iff its severity is at most that override; when it holds none, the entry is
  accepted iff its severity is at most the default threshold.
\<close>

theorem checkFilter_override_or_default:
  "(map_of (domains f) (domain entry) = Some t \<longrightarrow>
      checkFilter f entry = (level entry \<le> t))
   \<and> (map_of (domains f) (domain entry) = None \<longrightarrow>
      checkFilter f entry = (level entry \<le> default_level f))"
  by (simp add: checkFilter_map_of)

theorem checkFilter_override_or_default_witness:
  "map_of (domains (setDomainLogLevel ''net'' Debug new_Filter)) ''net'' = Some Debug
   \<and> checkFilter (setDomainLogLevel ''net'' Debug new_Filter)
        \<lparr> level = Debug, domain = ''net'', instance_name = None,
          src_location = \<lparr> file_name = ''a.cpp'', function_name = ''f'', line = 1, column = 1 \<rparr>,
          timestamp = 0 \<rparr>
   \<and> map_of (domains (setDomainLogLevel ''net'' Debug new_Filter)) ''disk'' = None
   \<and> \<not> checkFilter (setDomainLogLevel ''net'' Debug new_Filter)
        \<lparr> level = Debug, domain = ''disk'', instance_name = None,
          src_location = \<lparr> file_name = ''a.cpp'', function_name = ''f'', line = 1, column = 1 \<rparr>,
          timestamp = 0 \<rparr>"
  using checkFilter_override_or_default
    [of "setDomainLogLevel ''net'' Debug new_Filter"
        "\<lparr> level = Debug, domain = ''net'', instance_name = None,
          src_location = \<lparr> file_name = ''a.cpp'', function_name = ''f'', line = 1, column = 1 \<rparr>,
          timestamp = 0 \<rparr>" Debug]
    checkFilter_override_or_default
    [of "setDomainLogLevel ''net'' Debug new_Filter"
        "\<lparr> level = Debug, domain = ''disk'', instance_name = None,
          src_location = \<lparr> file_name = ''a.cpp'', function_name = ''f'', line = 1, column = 1 \<rparr>,
          timestamp = 0 \<rparr>" Debug]
  by (simp add: setDomainLogLevel_def new_Filter_def less_eq_LogLevel_def)

text \<open>
  Claim C6. The filter is monotone in severity: if an entry of severity \<open>s2\<close> is accepted
  and \<open>s1 \<le> s2\<close> (\<open>s1\<close> is at least as severe), the same entry with severity \<open>s1\<close> is
  accepted too.
\<close>

theorem checkFilter_monotone:
  "s1 \<le> s2 \<Longrightarrow> checkFilter f (entry\<lparr> level := s2 \<rparr>)
   \<Longrightarrow> checkFilter f (entry\<lparr> level := s1 \<rparr>)"
  by (auto simp: checkFilter_def split: option.splits)

theorem checkFilter_monotone_witness:
  "Error \<le> Info
   \<and> checkFilter new_Filter
        (\<lparr> level = Noise, domain = ''net'', instance_name = None,
          src_location = \<lparr> file_name = ''a.cpp'', function_name = ''f'', line = 1, column = 1 \<rparr>,
          timestamp = 0 \<rparr>\<lparr> level := Info \<rparr>)
   \<and> checkFilter new_Filter
        (\<lparr> level = Noise, domain = ''net'', instance_name = None,
          src_location = \<lparr> file_name = ''a.cpp'', function_name = ''f'', line = 1, column = 1 \<rparr>,
          timestamp = 0 \<rparr>\<lparr> level := Error \<rparr>)"
proof -
  have h1: "Error \<le> Info"
    by (simp add: less_eq_LogLevel_def)
  have h2: "checkFilter new_Filter
        (\<lparr> level = Noise, domain = ''net'', instance_name = None,
          src_location = \<lparr> file_name = ''a.cpp'', function_name = ''f'', line = 1, column = 1 \<rparr>,
          timestamp = 0 \<rparr>\<lparr> level := Info \<rparr>)"
    by (simp add: checkFilter_def new_Filter_def less_eq_LogLevel_def)
  show ?thesis
    using h1 h2 checkFilter_monotone [OF h1 h2] by simp
qed

text \<open>
  Claim C9. A newly constructed filter, and so a freshly created sink (here the text sink,
  whose constructor only adds the templates), has the default threshold \<open>Info\<close> and no
  override: for every domain it accepts exactly the severities Fatal, Critical, Error,
  Warning and Info, and so rejects Debug and Noise.
\<close>

theorem new_Filter_accepts_upto_Info:
  "checkFilter new_Filter entry = (level entry \<in> {Fatal, Critical, Error, Warning, Info})
   \<and> checkFilter new_FormattedStringSink entry
       = (level entry \<in> {Fatal, Critical, Error, Warning, Info})"
  by (cases "level entry")
     (simp_all add: checkFilter_def new_Filter_def new_FormattedStringSink_def
        less_eq_LogLevel_def)

section \<open>Properties of the sink registry\<close>

lemma emplace_present: "k \<in> fst ` set xs \<Longrightarrow> emplace arrange k v xs = xs"
  by (simp add: emplace_def)

lemma map_of_Some_key: "map_of xs k = Some v \<Longrightarrow> k \<in> fst ` set xs"
  by (metis domI dom_map_of_conv_image_fst)

lemma getSink_map_of:
  "getSink lg name =
     (case map_of (sinks lg) name of
        Some d \<Rightarrow> Inr d
      | None \<Rightarrow> Inl (runtime_error (''Failed to find sink '' @ name)))"
  by (simp add: getSink_def find_key_map_of split: option.splits)

text \<open>
  Claim C8. Looking up a name that is not registered fails: \<^verbatim>\<open>getSink\<close> returns no
  destination and the \<^verbatim>\<open>std::runtime_error\<close> reaches the caller. Looking up a registered
  name returns the destination stored under it.
\<close>

theorem getSink_found_or_raises:
  "(name \<notin> fst ` set (sinks lg) \<longrightarrow>
      getSink lg name = Inl (runtime_error (''Failed to find sink '' @ name)))
   \<and> (map_of (sinks lg) name = Some d \<longrightarrow> getSink lg name = Inr d)"
proof -
  have "name \<notin> fst ` set (sinks lg) \<Longrightarrow> map_of (sinks lg) name = None"
    by (simp add: map_of_eq_None_iff)
  then show ?thesis
    by (auto simp: getSink_map_of)
qed

theorem getSink_found_or_raises_witness:
  "''file'' \<notin> fst ` set (sinks (addSink id ''console'' new_Filter new_Logger))
   \<and> getSink (addSink id ''console'' new_Filter new_Logger) ''file''
       = Inl (runtime_error ''Failed to find sink file'')
   \<and> map_of (sinks (addSink id ''console'' new_Filter new_Logger)) ''console'' = Some new_Filter
   \<and> getSink (addSink id ''console'' new_Filter new_Logger) ''console'' = Inr new_Filter"
  using getSink_found_or_raises
      [of "''file''" "addSink id ''console'' new_Filter new_Logger" new_Filter]
    getSink_found_or_raises
      [of "''console''" "addSink id ''console'' new_Filter new_Logger" new_Filter]
  by (simp add: addSink_def emplace_def new_Logger_def)

text \<open>
  Claim C1, as stated, fails: \<^verbatim>\<open>addSink\<close> under a name that is already registered does
  not replace the destination. With \<open>d1\<close> a fresh sink (threshold Info) and \<open>d2\<close> a sink
  with threshold Noise, both added under the same name, \<^verbatim>\<open>getSink\<close> returns \<open>d1\<close>, and
  a Debug entry, which \<open>d2\<close> would accept, is delivered to nobody.
\<close>

theorem addSink_replaces_counterexample:
  "getSink (addSink id ''console'' (setDefaultLogLevel Noise new_Filter)
              (addSink id ''console'' new_Filter new_Logger)) ''console''
     \<noteq> Inr (setDefaultLogLevel Noise new_Filter)
   \<and> getSink (addSink id ''console'' (setDefaultLogLevel Noise new_Filter)
              (addSink id ''console'' new_Filter new_Logger)) ''console''
     = Inr new_Filter
   \<and> checkFilter (setDefaultLogLevel Noise new_Filter)
        \<lparr> level = Debug, domain = ''net'', instance_name = None,
          src_location = \<lparr> file_name = ''a.cpp'', function_name = ''f'', line = 1, column = 1 \<rparr>,
          timestamp = 0 \<rparr>
   \<and> calls (dolog checkFilter (\<lambda>s m msg. (s, None)) (\<lambda>f (a :: unit). f) 0
        (addSink id ''console'' (setDefaultLogLevel Noise new_Filter)
              (addSink id ''console'' new_Filter new_Logger))
        Debug ''net'' None
        \<lparr> file_name = ''a.cpp'', function_name = ''f'', line = 1, column = 1 \<rparr>
        ''hello'' ()) = []"
  by (simp add: getSink_def addSink_def emplace_def new_Logger_def setDefaultLogLevel_def
      new_Filter_def dolog_def checkFilter_def less_eq_LogLevel_def)

text \<open>
  Claim C1, amended. When a destination \<open>d1\<close> is already registered under a name,
  \<^verbatim>\<open>addSink\<close> of \<open>d2\<close> under that name leaves the registry as it was: \<^verbatim>\<open>getSink\<close> still
  returns \<open>d1\<close>, and every later log call behaves as on the unchanged logger, so it is
  \<open>d1\<close> that is delivered to.
\<close>

theorem addSink_existing_name_keeps_first:
  "map_of (sinks lg) name = Some dprev \<Longrightarrow>
   getSink (addSink arrange name dnew lg) name = Inr dprev
   \<and> dolog chk lgf vformat now (addSink arrange name dnew lg) lv dmn inst loc fmt args
       = dolog chk lgf vformat now lg lv dmn inst loc fmt args"
  by (simp add: addSink_def emplace_present map_of_Some_key getSink_map_of)

theorem addSink_existing_name_keeps_first_witness:
  "map_of (sinks (addSink id ''console'' new_Filter new_Logger)) ''console'' = Some new_Filter
   \<and> getSink (addSink id ''console'' (setDefaultLogLevel Noise new_Filter)
              (addSink id ''console'' new_Filter new_Logger)) ''console''
     = Inr new_Filter
   \<and> dolog checkFilter (\<lambda>s m msg. (s, None)) (\<lambda>f (a :: unit). f) 0
        (addSink id ''console'' (setDefaultLogLevel Noise new_Filter)
              (addSink id ''console'' new_Filter new_Logger))
        Debug ''net'' None
        \<lparr> file_name = ''a.cpp'', function_name = ''f'', line = 1, column = 1 \<rparr>
        ''hello'' ()
     = dolog checkFilter (\<lambda>s m msg. (s, None)) (\<lambda>f (a :: unit). f) 0
        (addSink id ''console'' new_Filter new_Logger)
        Debug ''net'' None
        \<lparr> file_name = ''a.cpp'', function_name = ''f'', line = 1, column = 1 \<rparr>
        ''hello'' ()"
proof -
  have h: "map_of (sinks (addSink id ''console'' new_Filter new_Logger)) ''console'' = Some new_Filter"
    by (simp add: addSink_def emplace_def new_Logger_def)
  show ?thesis
    using h addSink_existing_name_keeps_first [OF h,
        where arrange = id and dnew = "setDefaultLogLevel Noise new_Filter" and chk = checkFilter
          and lgf = "\<lambda>s m msg. (s, None)" and vformat = "\<lambda>f (a :: unit). f" and now = 0
          and lv = Debug and dmn = "''net''" and inst = None
          and loc = "\<lparr> file_name = ''a.cpp'', function_name = ''f'', line = 1, column = 1 \<rparr>"
          and fmt = "''hello''" and args = "()"]
    by blast
qed

section \<open>Properties of the dispatcher\<close>


lemma deliver_calls_prefix:
  "deliver chk lg meta msg xs = (cs, xs', r) \<Longrightarrow>
   prefix cs
     (map (\<lambda>kv. Call_log (fst kv) (snd kv) meta msg) (filter (\<lambda>kv. chk (snd kv) meta) xs))"
  by (induction xs arbitrary: cs xs' r) (auto split: prod.splits option.splits if_splits)


lemma deliver_only_log_calls:
  "deliver chk lg meta msg xs = (cs, xs', r) \<Longrightarrow> filter is_vformat cs = []"
  by (induction xs arbitrary: cs xs' r) (auto split: prod.splits option.splits if_splits)

lemma deliver_keeps_names:
  "deliver chk lg meta msg xs = (cs, xs', r) \<Longrightarrow> map fst xs' = map fst xs"
  by (induction xs arbitrary: cs xs' r) (auto split: prod.splits option.splits if_splits)

lemma filter_not_vformat_id:
  "filter is_vformat cs = [] \<Longrightarrow> filter (\<lambda>c. \<not> is_vformat c) cs = cs"
  by (induction cs) (auto split: if_splits)

text \<open>
  An exception thrown by a sink's \<^verbatim>\<open>log\<close> ends the call: the sinks delivered to are then
  an initial part of the accepting ones, and the message was still expanded once.
\<close>

lemma dolog_calls_prefix:
  fixes logger :: "'s Logger" and args :: "'a"
  shows "prefix (log_calls (calls (dolog chk lg vformat now logger lv dmn inst loc fmt args)))
     (map (\<lambda>kv. Call_log (fst kv) (snd kv)
              \<lparr> level = lv, domain = dmn, instance_name = inst,
                src_location = loc, timestamp = now \<rparr> (vformat fmt args))
        (accepting chk \<lparr> level = lv, domain = dmn, instance_name = inst,
                src_location = loc, timestamp = now \<rparr> logger))"
proof -
  let ?meta = "\<lparr> level = lv, domain = dmn, instance_name = inst,
                src_location = loc, timestamp = now \<rparr>"
  obtain cs :: "('s, 'a) call list" and xs' r
    where d: "deliver chk lg ?meta (vformat fmt args) (sinks logger) = (cs, xs', r)"
    by (metis prod_cases3)
  have "filter (\<lambda>c. \<not> is_vformat c) cs = cs"
    using deliver_only_log_calls [OF d] by (rule filter_not_vformat_id)
  then show ?thesis
    using deliver_calls_prefix [OF d] d
    by (simp add: dolog_def log_calls_def accepting_def Let_def)
qed



section \<open>Properties of the format renderer\<close>

lemma directive_unknown:
  "fc \<notin> set directive_chars \<Longrightarrow> directive pf meta msg fmt s fc = ([], 0)"
  by (simp add: directive_def directive_chars_def time_directives_def)

text \<open>
  A \<open>%\<close> in the last position: the loop body changes neither the position nor the
  output, so the loop never returns. By the induction rule of the loop, every state from
  which it returns is a state that is not of this kind.
\<close>

lemma formatEntry_loop_stuck:
  assumes "s < length fmt" and "fmt ! s = CHR ''%''" and "\<not> s < length fmt - 1"
  shows "formatEntry_loop pf meta msg fmt s out = None"
proof (rule ccontr)
  assume "formatEntry_loop pf meta msg fmt s out \<noteq> None"
  then obtain y where y: "formatEntry_loop pf meta msg fmt s out = Some y"
    by auto
  have "\<not> (s < length fmt \<and> fmt ! s = CHR ''%'' \<and> \<not> s < length fmt - 1)"
    by (rule formatEntry_loop.raw_induct
          [where P = "\<lambda>pf meta msg fmt s out y.
                        \<not> (s < length fmt \<and> fmt ! s = CHR ''%'' \<and> \<not> s < length fmt - 1)",
           OF _ y])
       (auto split: if_splits option.splits)
  with assms show False
    by simp
qed

lemma getFormatString_setFormat_new [simp]:
  "getFormatString (setFormat fmt new_FormattedStringSink) lv = fmt"
  by (simp add: getFormatString_def setFormat_def new_FormattedStringSink_def)

text \<open>
  Claim C2 fails on the code. On the template \<open>%\<close>, and on \<open>a%\<close>, where the literal
  \<open>a\<close> is copied first, \<^verbatim>\<open>formatEntry\<close> does not terminate: among the branches of the
  loop none handles a \<open>%\<close> in the last position, so nothing is emitted for it and the
  position never moves.
\<close>

theorem formatEntry_trailing_percent_diverges:
  "formatEntry pf (setFormat ''%'' new_FormattedStringSink) meta msg = None
   \<and> formatEntry pf (setFormat ''a%'' new_FormattedStringSink) meta msg = None"
proof -
  have one: "formatEntry_loop pf meta msg ''%'' 0 [] = None"
    by (rule formatEntry_loop_stuck) simp_all
  have "formatEntry_loop pf meta msg ''a%'' 0 [] = formatEntry_loop pf meta msg ''a%'' 1 ''a''"
    by (subst formatEntry_loop.simps) (simp add: find_from_def)
  moreover have "formatEntry_loop pf meta msg ''a%'' 1 ''a'' = None"
    by (rule formatEntry_loop_stuck) simp_all
  ultimately show ?thesis
    using one by (simp add: formatEntry_def)
qed

text \<open>
  The loop reads the template only from its position on, and only appends to the
  output. Both facts are equalities between results of the loop, so each is proved in
  two directions by the induction rule of the loop (whenever one side returns, the other
  returns the same), which also covers the runs that do not end.
\<close>

lemma find_from_shift:
  "s \<le> length fmt \<Longrightarrow>
   find_from (p @ fmt) c (length p + s) = map_option (\<lambda>i. length p + i) (find_from fmt c s)"
  by (cases "find_first c (drop s fmt)") (simp_all add: find_from_def)

lemma directive_shift:
  "s < length fmt - 1 \<Longrightarrow>
   directive pf meta msg (p @ fmt) (length p + s) fc = directive pf meta msg fmt s fc"
  by (auto simp: directive_def nth_append)

lemma find_from_ge: "find_from fmt c s = Some q \<Longrightarrow> s \<le> q"
  by (auto simp: find_from_def split: if_splits)

lemma formatEntry_loop_shift_fwd:
  assumes ret: "formatEntry_loop pf meta msg fmt s out = Some y"
  shows "formatEntry_loop pf meta msg (p @ fmt) (length p + s) out = Some y"
proof (rule formatEntry_loop.raw_induct
    [where P = "\<lambda>pf meta msg fmt s out y.
       formatEntry_loop pf meta msg (p @ fmt) (length p + s) out = Some y", OF _ ret],
    goal_cases)
  case (1 loop pf meta msg fmt s out y)
  show ?case
  proof (cases "s < length fmt")
    case False
    with 1(2) have "s = length fmt \<or> s > length fmt" by auto
    with 1(2) False show ?thesis
      by (subst formatEntry_loop.simps) simp
  next
    case True
    note s = this
    show ?thesis
    proof (cases "fmt ! s \<noteq> CHR ''%''")
      case True
      show ?thesis
      proof (cases "find_from fmt CHR ''%'' s")
        case None
        with s True 1(2) have "loop pf meta msg fmt (length fmt) (out @ drop s fmt) = Some y"
          by simp
        from 1(1)[OF this] s True None show ?thesis
          by (subst formatEntry_loop.simps) (simp add: find_from_shift nth_append)
      next
        case (Some q)
        with s True 1(2) have "loop pf meta msg fmt (s + (q - s)) (out @ take (q - s) (drop s fmt)) = Some y"
          by simp
        from 1(1)[OF this] s True Some find_from_ge[OF Some] show ?thesis
          by (subst formatEntry_loop.simps) (simp add: find_from_shift nth_append add.assoc)
      qed
    next
      case False
      show ?thesis
      proof (cases "s < length fmt - 1")
        case True
        with s False 1(2) have "loop pf meta msg fmt
             (s + snd (directive pf meta msg fmt s (fmt ! (s + 1))) + 2)
             (out @ fst (directive pf meta msg fmt s (fmt ! (s + 1)))) = Some y"
          by simp
        from 1(1)[OF this] s False True show ?thesis
          by (subst formatEntry_loop.simps)
             (auto simp: directive_shift nth_append add.assoc)
      next
        case nl: False
        with s False 1(2) have "loop pf meta msg fmt s out = Some y"
          by simp
        from 1(1)[OF this] show ?thesis .
      qed
    qed
  qed
qed


lemma formatEntry_loop_shift_bwd:
  assumes ret: "formatEntry_loop pf meta msg (p @ fmt) (length p + s) out = Some y"
  shows "formatEntry_loop pf meta msg fmt s out = Some y"
proof -
  have "\<forall>fmt0 s0. p @ fmt = p @ fmt0 \<longrightarrow> length p + s = length p + s0 \<longrightarrow>
          formatEntry_loop pf meta msg fmt0 s0 out = Some y"
  proof (rule formatEntry_loop.raw_induct
      [where P = "\<lambda>pf meta msg fmt' s' out y. \<forall>fmt0 s0. fmt' = p @ fmt0 \<longrightarrow> s' = length p + s0 \<longrightarrow>
         formatEntry_loop pf meta msg fmt0 s0 out = Some y", OF _ ret],
      goal_cases)
    case (1 loop pf meta msg fmt' s' out y)
    show ?case
    proof (intro allI impI)
      fix fmt s
      assume f: "fmt' = p @ fmt" and s': "s' = length p + s"
      note eq = 1(2)[unfolded f s']
      show "formatEntry_loop pf meta msg fmt s out = Some y"
      proof (cases "s < length fmt")
        case False
        with eq have "out = y" by simp
        with False show ?thesis
          by (subst formatEntry_loop.simps) simp
      next
        case True
        note s = this
        show ?thesis
        proof (cases "fmt ! s \<noteq> CHR ''%''")
          case nz: True
          show ?thesis
          proof (cases "find_from fmt CHR ''%'' s")
            case None
            with eq s nz have "loop pf meta msg (p @ fmt) (length p + length fmt) (out @ drop s fmt) = Some y"
              by (simp add: find_from_shift nth_append)
            from 1(1)[OF this] have "formatEntry_loop pf meta msg fmt (length fmt) (out @ drop s fmt) = Some y"
              by simp
            with s nz None show ?thesis
              by (subst formatEntry_loop.simps) simp
          next
            case (Some q)
            with eq s nz find_from_ge[OF Some]
            have "loop pf meta msg (p @ fmt) (length p + (s + (q - s))) (out @ take (q - s) (drop s fmt)) = Some y"
              by (simp add: find_from_shift nth_append add.assoc)
            from 1(1)[OF this] have "formatEntry_loop pf meta msg fmt (s + (q - s)) (out @ take (q - s) (drop s fmt)) = Some y"
              by simp
            with s nz Some show ?thesis
              by (subst formatEntry_loop.simps) simp
          qed
        next
          case False
          show ?thesis
          proof (cases "s < length fmt - 1")
            case True
            with eq s False
            have "loop pf meta msg (p @ fmt)
                (length p + (s + snd (directive pf meta msg fmt s (fmt ! (s + 1))) + 2))
                (out @ fst (directive pf meta msg fmt s (fmt ! (s + 1)))) = Some y"
              by (auto simp: directive_shift nth_append add.assoc split: if_splits)
            from 1(1)[OF this]
            have "formatEntry_loop pf meta msg fmt
                (s + snd (directive pf meta msg fmt s (fmt ! (s + 1))) + 2)
                (out @ fst (directive pf meta msg fmt s (fmt ! (s + 1)))) = Some y"
              by simp
            with s False True show ?thesis
              by (subst formatEntry_loop.simps) simp
          next
            case nl: False
            with eq s False have "loop pf meta msg (p @ fmt) (length p + s) out = Some y"
              by (auto simp: nth_append split: if_splits)
            from 1(1)[OF this] have "formatEntry_loop pf meta msg fmt s out = Some y"
              by simp
            then show ?thesis .
          qed
        qed
      qed
    qed
  qed
  then show ?thesis by simp
qed

lemma formatEntry_loop_out_fwd:
  assumes ret: "formatEntry_loop pf meta msg fmt s out = Some y"
  shows "formatEntry_loop pf meta msg fmt s (o1 @ out) = Some (o1 @ y)"
proof (rule formatEntry_loop.raw_induct
    [where P = "\<lambda>pf meta msg fmt s out y.
       formatEntry_loop pf meta msg fmt s (o1 @ out) = Some (o1 @ y)", OF _ ret],
    goal_cases)
  case (1 loop pf meta msg fmt s out y)
  show ?case
    using 1(2) 1(1)
    by (subst formatEntry_loop.simps) (auto split: if_splits option.splits)
qed

lemma formatEntry_loop_out_bwd:
  assumes ret: "formatEntry_loop pf meta msg fmt s (o1 @ out) = Some y"
  shows "\<exists>r. y = o1 @ r \<and> formatEntry_loop pf meta msg fmt s out = Some r"
proof -
  have "\<forall>out0. o1 @ out = o1 @ out0 \<longrightarrow>
          (\<exists>r. y = o1 @ r \<and> formatEntry_loop pf meta msg fmt s out0 = Some r)"
  proof (rule formatEntry_loop.raw_induct
      [where P = "\<lambda>pf meta msg fmt s out' y. \<forall>out0. out' = o1 @ out0 \<longrightarrow>
         (\<exists>r. y = o1 @ r \<and> formatEntry_loop pf meta msg fmt s out0 = Some r)", OF _ ret],
      goal_cases)
    case (1 loop pf meta msg fmt s out' y)
    show ?case
    proof (intro allI impI)
      fix out0 assume o: "out' = o1 @ out0"
      note eq = 1(2)[unfolded o]
      show "\<exists>r. y = o1 @ r \<and> formatEntry_loop pf meta msg fmt s out0 = Some r"
        using eq 1(1)
        by (subst formatEntry_loop.simps) (auto split: if_splits option.splits)
    qed
  qed
  then show ?thesis by simp
qed

lemma formatEntry_loop_shift:
  "formatEntry_loop pf meta msg (p @ fmt) (length p + s) out = formatEntry_loop pf meta msg fmt s out"
proof (cases "formatEntry_loop pf meta msg fmt s out")
  case (Some y)
  from formatEntry_loop_shift_fwd [OF Some] Some show ?thesis
    by simp
next
  case None
  show ?thesis
  proof (cases "formatEntry_loop pf meta msg (p @ fmt) (length p + s) out")
    case (Some y)
    from formatEntry_loop_shift_bwd [OF Some] None show ?thesis
      by simp
  next
    case shifted: None
    with None show ?thesis
      by simp
  qed
qed

lemma formatEntry_loop_out:
  "formatEntry_loop pf meta msg fmt s (o1 @ out) =
     map_option (\<lambda>r. o1 @ r) (formatEntry_loop pf meta msg fmt s out)"
proof (cases "formatEntry_loop pf meta msg fmt s out")
  case (Some y)
  from formatEntry_loop_out_fwd [OF Some] Some show ?thesis
    by simp
next
  case None
  show ?thesis
  proof (cases "formatEntry_loop pf meta msg fmt s (o1 @ out)")
    case (Some y)
    from formatEntry_loop_out_bwd [OF Some] None show ?thesis
      by auto
  next
    case prefixed: None
    with None show ?thesis
      by simp
  qed
qed

lemma find_first_None: "c \<notin> set xs \<Longrightarrow> find_first c xs = None"
  by (induction xs) auto

lemma find_first_append: "c \<notin> set ys \<Longrightarrow> find_first c (ys @ c # zs) = Some (length ys)"
  by (induction ys) auto

lemma formatEntry_loop_end: "formatEntry_loop pf meta msg fmt (length fmt) out = Some out"
  by (subst formatEntry_loop.simps) simp

text \<open>A run of literal characters up to the next \<open>%\<close>, and up to the end of the template.\<close>

lemma formatEntry_loop_literal_head:
  assumes "pre \<noteq> []" and "CHR ''%'' \<notin> set pre"
  shows "formatEntry_loop pf meta msg (pre @ CHR ''%'' # rest) 0 [] =
         formatEntry_loop pf meta msg (pre @ CHR ''%'' # rest) (length pre) pre"
proof -
  have nz: "(pre @ CHR ''%'' # rest) ! 0 \<noteq> CHR ''%''"
    using assms by (cases pre) auto
  have ff: "find_from (pre @ CHR ''%'' # rest) CHR ''%'' 0 = Some (length pre)"
    using assms by (simp add: find_from_def find_first_append)
  show ?thesis
    using assms nz ff
    by (subst formatEntry_loop.simps) simp
qed

lemma formatEntry_loop_literal_tail:
  assumes "post \<noteq> []" and "CHR ''%'' \<notin> set post"
  shows "formatEntry_loop pf meta msg (pre @ post) (length pre) out = Some (out @ post)"
proof -
  have nz: "(pre @ post) ! length pre \<noteq> CHR ''%''"
    using assms by (cases post) auto
  have ff: "find_from (pre @ post) CHR ''%'' (length pre) = None"
    using assms by (simp add: find_from_def find_first_None)
  show ?thesis
    using assms nz ff formatEntry_loop_end [where fmt = "pre @ post" and out = "out @ post"]
    by (subst formatEntry_loop.simps) simp
qed

lemma formatEntry_loop_literal_only:
  assumes "CHR ''%'' \<notin> set post"
  shows "formatEntry_loop pf meta msg post 0 [] = Some post"
proof (cases "post = []")
  case True
  then show ?thesis
    using formatEntry_loop_end [where fmt = "[]" and out = "[]"] by simp
next
  case False
  then show ?thesis
    using formatEntry_loop_literal_tail [where pre = "[]" and post = post and out = "[]"] assms
    by simp
qed

lemma formatEntry_loop_unknown_step:
  assumes "s < length fmt - 1" and "fmt ! s = CHR ''%''"
    and "fmt ! (s + 1) \<notin> set directive_chars"
  shows "formatEntry_loop pf meta msg fmt s out = formatEntry_loop pf meta msg fmt (s + 2) out"
  using assms by (subst formatEntry_loop.simps) (auto simp: directive_unknown)

text \<open>
  A template that starts with literal characters \<open>pre\<close>, then has a \<open>%\<close> followed by a
  character \<open>c\<close> with no case in the switch, then any rest \<open>post\<close>: the rendering is
  \<open>pre\<close> followed by the rendering of \<open>post\<close> alone.
\<close>

lemma formatEntry_loop_unknown_directive:
  assumes pre: "CHR ''%'' \<notin> set pre" and c: "c \<notin> set directive_chars"
  shows "formatEntry_loop pf meta msg (pre @ CHR ''%'' # c # post) 0 [] =
         map_option (\<lambda>r. pre @ r) (formatEntry_loop pf meta msg post 0 [])"
proof -
  let ?fmt = "pre @ CHR ''%'' # c # post"
  have "formatEntry_loop pf meta msg ?fmt 0 [] = formatEntry_loop pf meta msg ?fmt (length pre) pre"
    using pre formatEntry_loop_literal_head [where pre = pre and rest = "c # post"]
    by (cases "pre = []") simp_all
  also have "\<dots> = formatEntry_loop pf meta msg ?fmt (length pre + 2) pre"
    using c by (intro formatEntry_loop_unknown_step) (simp_all add: nth_append)
  also have "\<dots> = formatEntry_loop pf meta msg post 0 pre"
    using formatEntry_loop_shift [where p = "pre @ [CHR ''%'', c]" and fmt = post and s = 0]
    by simp
  also have "\<dots> = map_option (\<lambda>r. pre @ r) (formatEntry_loop pf meta msg post 0 [])"
    using formatEntry_loop_out [where ?o1.0 = pre and out = "[]"] by simp
  finally show ?thesis .
qed

text \<open>
  Claim C7. A \<open>%\<close> followed by a character with no case in the switch is dropped: nothing
  is emitted for the two characters, nothing is raised, and the scan goes on after them.
  \<^item> At any position of the scan: the loop goes on two positions further with the output
    unchanged.
  \<^item> On a whole template \<open>pre%c post\<close>, with \<open>pre\<close> literal: the rendering is \<open>pre\<close>
    followed by the rendering of \<open>post\<close>, whatever \<open>post\<close> holds.
  \<^item> When \<open>post\<close> is literal too, the rendering is exactly \<open>pre\<close> followed by \<open>post\<close>.
  \<^item> In particular the template \<open>a%Zb\<close> renders to exactly \<open>ab\<close>.
\<close>

theorem unknown_directive_is_dropped:
  "(s < length fmt - 1 \<and> fmt ! s = CHR ''%'' \<and> fmt ! (s + 1) \<notin> set directive_chars \<longrightarrow>
      formatEntry_loop pf meta msg fmt s out = formatEntry_loop pf meta msg fmt (s + 2) out)
   \<and> (CHR ''%'' \<notin> set pre \<and> c \<notin> set directive_chars
       \<and> getFormatString sink (level meta) = pre @ CHR ''%'' # c # post
       \<and> getFormatString sink_post (level meta) = post \<longrightarrow>
      formatEntry pf sink meta msg = map_option (\<lambda>r. pre @ r) (formatEntry pf sink_post meta msg))
   \<and> (CHR ''%'' \<notin> set pre \<and> c \<notin> set directive_chars \<and> CHR ''%'' \<notin> set post
       \<and> getFormatString sink (level meta) = pre @ CHR ''%'' # c # post \<longrightarrow>
      formatEntry pf sink meta msg = Some (pre @ post))
   \<and> (getFormatString sink (level meta) = ''a%Zb'' \<longrightarrow>
      formatEntry pf sink meta msg = Some ''ab'')"
proof -
  have step: "formatEntry_loop pf meta msg fmt s out = formatEntry_loop pf meta msg fmt (s + 2) out"
    if "s < length fmt - 1" and "fmt ! s = CHR ''%''" and "fmt ! (s + 1) \<notin> set directive_chars"
    using that by (rule formatEntry_loop_unknown_step)
  have whole: "formatEntry pf sink meta msg
      = map_option (\<lambda>r. pre @ r) (formatEntry pf sink_post meta msg)"
    if "CHR ''%'' \<notin> set pre" and "c \<notin> set directive_chars"
      and "getFormatString sink (level meta) = pre @ CHR ''%'' # c # post"
      and "getFormatString sink_post (level meta) = post"
    using that by (simp add: formatEntry_def formatEntry_loop_unknown_directive)
  have literal: "formatEntry pf sink meta msg = Some (pre @ post)"
    if "CHR ''%'' \<notin> set pre" and "c \<notin> set directive_chars" and "CHR ''%'' \<notin> set post"
      and "getFormatString sink (level meta) = pre @ CHR ''%'' # c # post"
    using that
    by (simp add: formatEntry_def formatEntry_loop_unknown_directive formatEntry_loop_literal_only)
  have example: "formatEntry pf sink meta msg = Some ''ab''"
    if "getFormatString sink (level meta) = ''a%Zb''"
    using that
    by (simp add: formatEntry_def formatEntry_loop.simps find_from_def directive_def
        time_directives_def)
  show ?thesis
    using step whole literal example by blast
qed

theorem unknown_directive_is_dropped_witness:
  "1 < length ''a%Zb%%'' - 1 \<and> ''a%Zb%%'' ! 1 = CHR ''%''
   \<and> ''a%Zb%%'' ! (1 + 1) \<notin> set directive_chars
   \<and> CHR ''%'' \<notin> set ''a'' \<and> CHR ''Z'' \<notin> set directive_chars \<and> CHR ''%'' \<notin> set ''b''
   \<and> formatEntry_loop \<lparr> msvc = False, chrono_format = (\<lambda>c t. []) \<rparr>
        \<lparr> level = Warning, domain = ''net'', instance_name = None,
          src_location = \<lparr> file_name = ''a.cpp'', function_name = ''f'', line = 1, column = 1 \<rparr>,
          timestamp = 0 \<rparr> ''disk low'' ''a%Zb%%'' 1 ''a''
     = formatEntry_loop \<lparr> msvc = False, chrono_format = (\<lambda>c t. []) \<rparr>
        \<lparr> level = Warning, domain = ''net'', instance_name = None,
          src_location = \<lparr> file_name = ''a.cpp'', function_name = ''f'', line = 1, column = 1 \<rparr>,
          timestamp = 0 \<rparr> ''disk low'' ''a%Zb%%'' (1 + 2) ''a''
   \<and> formatEntry \<lparr> msvc = False, chrono_format = (\<lambda>c t. []) \<rparr>
        (setFormat ''a%Zb%%'' new_FormattedStringSink)
        \<lparr> level = Warning, domain = ''net'', instance_name = None,
          src_location = \<lparr> file_name = ''a.cpp'', function_name = ''f'', line = 1, column = 1 \<rparr>,
          timestamp = 0 \<rparr> ''disk low''
     = map_option (\<lambda>r. ''a'' @ r)
        (formatEntry \<lparr> msvc = False, chrono_format = (\<lambda>c t. []) \<rparr>
          (setFormat ''b%%'' new_FormattedStringSink)
          \<lparr> level = Warning, domain = ''net'', instance_name = None,
          src_location = \<lparr> file_name = ''a.cpp'', function_name = ''f'', line = 1, column = 1 \<rparr>,
          timestamp = 0 \<rparr> ''disk low'')
   \<and> formatEntry \<lparr> msvc = False, chrono_format = (\<lambda>c t. []) \<rparr>
        (setFormat ''b%%'' new_FormattedStringSink)
        \<lparr> level = Warning, domain = ''net'', instance_name = None,
          src_location = \<lparr> file_name = ''a.cpp'', function_name = ''f'', line = 1, column = 1 \<rparr>,
          timestamp = 0 \<rparr> ''disk low'' = Some ''b%''
   \<and> formatEntry \<lparr> msvc = False, chrono_format = (\<lambda>c t. []) \<rparr>
        (setFormat ''a%Zb'' new_FormattedStringSink)
        \<lparr> level = Warning, domain = ''net'', instance_name = None,
          src_location = \<lparr> file_name = ''a.cpp'', function_name = ''f'', line = 1, column = 1 \<rparr>,
          timestamp = 0 \<rparr> ''disk low'' = Some (''a'' @ ''b'')"
  (is "?h1 \<and> ?h2 \<and> ?h3 \<and> ?h4 \<and> ?h5 \<and> ?h6 \<and> ?c1 \<and> ?c2 \<and> ?c3 \<and> ?c4")
proof -
  let ?pf = "\<lparr> msvc = False, chrono_format = (\<lambda>c t. []) \<rparr>"
  let ?meta = "\<lparr> level = Warning, domain = ''net'', instance_name = None,
          src_location = \<lparr> file_name = ''a.cpp'', function_name = ''f'', line = 1, column = 1 \<rparr>,
          timestamp = 0 \<rparr>"
  note long = unknown_directive_is_dropped
      [where s = 1 and fmt = "''a%Zb%%''" and out = "''a''" and pf = ?pf and meta = ?meta
         and msg = "''disk low''" and pre = "''a''" and c = "CHR ''Z''" and post = "''b%%''"
         and sink = "setFormat ''a%Zb%%'' new_FormattedStringSink"
         and sink_post = "setFormat ''b%%'' new_FormattedStringSink"]
  note short = unknown_directive_is_dropped
      [where s = 1 and fmt = "''a%Zb''" and out = "''a''" and pf = ?pf and meta = ?meta
         and msg = "''disk low''" and pre = "''a''" and c = "CHR ''Z''" and post = "''b''"
         and sink = "setFormat ''a%Zb'' new_FormattedStringSink"
         and sink_post = "setFormat ''b'' new_FormattedStringSink"]
  have h: "?h1 \<and> ?h2 \<and> ?h3 \<and> ?h4 \<and> ?h5 \<and> ?h6"
    by (simp add: directive_chars_def time_directives_def)
  have g_long: "getFormatString (setFormat ''a%Zb%%'' new_FormattedStringSink) (level ?meta)
      = ''a'' @ CHR ''%'' # CHR ''Z'' # ''b%%''"
    by simp
  have g_post: "getFormatString (setFormat ''b%%'' new_FormattedStringSink) (level ?meta) = ''b%%''"
    by simp
  have g_short: "getFormatString (setFormat ''a%Zb'' new_FormattedStringSink) (level ?meta)
      = ''a'' @ CHR ''%'' # CHR ''Z'' # ''b''"
    by simp
  have c1: ?c1
    using long h by blast
  have c2: ?c2
    using long h g_long g_post by blast
  have c3: ?c3
    by (simp add: formatEntry_def formatEntry_loop.simps find_from_def directive_def)
  have c4: ?c4
    using short h g_short by blast
  show ?thesis
    using h c1 c2 c3 c4 by blast
qed

section \<open>Properties of the deferred sink\<close>

lemma dle_call_make_dle: "dle_call (make_dle meta msg) = (meta, msg)"
  by (simp add: dle_call_def make_dle_def split: option.splits)

lemma fifo_inv_init: "fifo_inv todo (new_DeferredSink todo)"
  by (simp add: fifo_inv_def new_DeferredSink_def undelivered_def)

lemma fifo_inv_worker_step: "worker_step d = Some d' \<Longrightarrow> fifo_inv todo d \<Longrightarrow> fifo_inv todo d'"
  by (cases "worker d")
     (auto simp: worker_step_def fifo_inv_def undelivered_def split: if_splits list.splits)

lemma fifo_inv_owner_step: "owner_step d = Some d' \<Longrightarrow> fifo_inv todo d \<Longrightarrow> fifo_inv todo d'"
  by (cases "owner d")
     (auto simp: owner_step_def fifo_inv_def undelivered_def notify_one_def dle_call_make_dle
           split: if_splits list.splits)

lemma fifo_inv_run: "run sched d = Some d' \<Longrightarrow> fifo_inv todo d \<Longrightarrow> fifo_inv todo d'"
proof (induction sched arbitrary: d)
  case Nil
  then show ?case by simp
next
  case (Cons t ts)
  then show ?case
    by (cases t) (auto split: option.splits dest: fifo_inv_worker_step fifo_inv_owner_step)
qed

text \<open>
  What holds under every schedule: when the destructor has returned, the wrapped sink has
  received an initial part of the enqueued entries, in the order of the \<^verbatim>\<open>log\<close> calls,
  each once; the entries it has not received are the ones still in the queue.
\<close>

lemma deferred_calls_in_order:
  assumes "run sched (new_DeferredSink todo) = Some d" and "owner d = O_done"
  shows "todo = underlying_calls d @ map dle_call (queue d)"
proof -
  have "fifo_inv todo d"
    using assms(1) fifo_inv_init by (rule fifo_inv_run)
  then show ?thesis
    using assms(2) by (auto simp: fifo_inv_def undelivered_def)
qed

text \<open>
  When the worker is waiting in \<^verbatim>\<open>cv.wait\<close> at the time of the \<^verbatim>\<open>log\<close> call and again
  at the time of the destructor, the entry is delivered before the destructor returns.
\<close>

lemma deferred_shutdown_drains_when_worker_waits:
  "run [Worker, Worker, Worker, Owner, Owner,
        Worker, Worker, Worker, Worker, Worker, Worker, Worker, Worker, Worker,
        Owner, Owner, Owner, Worker, Worker, Worker, Worker, Owner]
     (new_DeferredSink [(meta, msg)])
   = Some \<lparr> underlying_calls = [(meta, msg)], stop_requested = True, mtx_locked = False,
            queue = [], worker = W_exit, owner = O_done, pending = [] \<rparr>"
  by (simp add: new_DeferredSink_def owner_step_def worker_step_def notify_one_def
      dle_call_make_dle)

text \<open>
  Claim C4 fails on the code. One entry is enqueued, and then the sink is destroyed; the
  worker thread takes its first step only after the destructor has set
  \<^verbatim>\<open>stop_requested\<close>. The worker's first test of \<^verbatim>\<open>while (!stop_requested)\<close> then
  ends the thread, \<^verbatim>\<open>join\<close> returns, and the destructor returns with the entry still in
  the queue: the wrapped sink has received nothing.
\<close>

theorem deferred_shutdown_loses_entry:
  "run [Owner, Owner, Owner, Owner, Owner, Worker, Owner] (new_DeferredSink [(meta, msg)])
   = Some \<lparr> underlying_calls = [], stop_requested = True, mtx_locked = False,
            queue = [make_dle meta msg], worker = W_exit, owner = O_done, pending = [] \<rparr>"
  by (simp add: new_DeferredSink_def owner_step_def worker_step_def notify_one_def)

end
